theory Spec2Isabelle
  imports Main "HOL-Library.Multiset"
begin

section \<open>Values of the request\<close>

text \<open>
  The handlers read \<^verbatim>\<open>req.body.mobileNumber\<close> and \<^verbatim>\<open>req.query.secret\<close>, with
  \<^verbatim>\<open>req.body\<close> the object that \<^verbatim>\<open>express.json()\<close> parsed.
  A property of a JSON body is absent (\<^verbatim>\<open>undefined\<close>), \<^verbatim>\<open>null\<close>, a boolean, a
  number or a string. Numbers are the integer-valued ones, which JavaScript prints as plain
  decimal digits; arrays, objects and fractional numbers are not represented.
  Strings are lists of characters.
\<close>

datatype jsval = JUndefined | JNull | JBool bool | JNum int | JStr string

text \<open>JavaScript truthiness, as used by \<^verbatim>\<open>!mobileNumber\<close> and \<^verbatim>\<open>mobileNumber || ''\<close>.\<close>

fun truthy :: "jsval \<Rightarrow> bool" where
  "truthy JUndefined = False"
| "truthy JNull = False"
| "truthy (JBool b) = b"
| "truthy (JNum n) = (n \<noteq> 0)"
| "truthy (JStr s) = (s \<noteq> [])"

definition digit_char :: "nat \<Rightarrow> char" where
  "digit_char d = ''0123456789'' ! (d mod 10)"

function show_nat :: "nat \<Rightarrow> string" where
  "show_nat n = (if n < 10 then [digit_char n] else show_nat (n div 10) @ [digit_char (n mod 10)])"
  by pat_completeness auto
termination
  by (relation "measure (\<lambda>n. n)") auto

declare show_nat.simps [simp del]

text \<open>
  The string conversion that \<^verbatim>\<open>RegExp.prototype.test\<close> applies to its argument
  before matching.
\<close>

fun to_string :: "jsval \<Rightarrow> string" where
  "to_string JUndefined = ''undefined''"
| "to_string JNull = ''null''"
| "to_string (JBool b) = (if b then ''true'' else ''false'')"
| "to_string (JNum n) = (if n < 0 then CHR ''-'' # show_nat (nat (- n)) else show_nat (nat n))"
| "to_string (JStr s) = s"

definition is_digit :: "char \<Rightarrow> bool" where
  "is_digit c = (c \<in> set ''0123456789'')"

text \<open>The pattern \<^verbatim>\<open>/^\d{10}$/\<close> on a string: ten characters, each a decimal digit.\<close>

definition valid_mobile :: "string \<Rightarrow> bool" where
  "valid_mobile s = (length s = 10 \<and> list_all is_digit s)"

definition regex_test :: "jsval \<Rightarrow> bool" where
  "regex_test v = valid_mobile (to_string v)"

text \<open>The validation check \<^verbatim>\<open>!mobileNumber || !/^\d{10}$/.test(mobileNumber)\<close>.\<close>

definition invalid :: "jsval \<Rightarrow> bool" where
  "invalid v = (if truthy v then \<not> regex_test v else True)"

text \<open>\<^verbatim>\<open>mobileNumber || ''\<close>\<close>

definition or_empty :: "jsval \<Rightarrow> jsval" where
  "or_empty v = (if truthy v then v else JStr [])"

section \<open>The two tables\<close>

text \<open>
  \<^verbatim>\<open>mobile_searches\<close> and \<^verbatim>\<open>test_results\<close> as \<^verbatim>\<open>initDatabase\<close> creates them.
  Timestamps are natural numbers. The column \<^verbatim>\<open>id\<close> is \<open>row_id\<close> here and
  \<open>tr_id\<close> in \<open>test_result\<close>, whose \<^verbatim>\<open>name\<close> column is \<open>tr_name\<close>.
\<close>

record search_record =
  row_id :: nat
  mobile_number :: string
  click_count :: int
  name :: "string option"
  last_updated :: nat

record test_result =
  tr_id :: nat
  tr_name :: string
  phone :: string
  current_group :: "string option"
  exam_date :: "string option"
  result :: "string option"

record db =
  mobile_searches :: "search_record list"
  test_results :: "test_result list"
  next_id :: nat

datatype db_error = DbError

text \<open>
  The text under which a bound parameter is stored in, and compared with, a
  \<^verbatim>\<open>VARCHAR\<close> column: a string is itself, a number its decimal digits, a boolean
  \<^verbatim>\<open>1\<close> or \<^verbatim>\<open>0\<close>. The driver rejects \<^verbatim>\<open>undefined\<close>, and the key columns
  are \<^verbatim>\<open>NOT NULL\<close>; neither value reaches a statement in the handlers below.
\<close>

fun bind :: "jsval \<Rightarrow> string option" where
  "bind JUndefined = None"
| "bind JNull = None"
| "bind (JBool b) = Some (if b then ''1'' else ''0'')"
| "bind (JNum n) = Some (to_string (JNum n))"
| "bind (JStr s) = Some s"

text \<open>
  \<^verbatim>\<open>INSERT INTO mobile_searches (mobile_number, click_count, name) VALUES (?, 1, NULL)
  ON DUPLICATE KEY UPDATE click_count = click_count + 1, last_updated = CURRENT_TIMESTAMP\<close>
  on the rows of the table: the row with the key is updated, and a table without one gets a
  new row at the end.
\<close>

fun upsert_rows :: "string \<Rightarrow> nat \<Rightarrow> nat \<Rightarrow> search_record list \<Rightarrow> search_record list" where
  "upsert_rows k now nid [] =
     [\<lparr>row_id = nid, mobile_number = k, click_count = 1, name = None, last_updated = now\<rparr>]"
| "upsert_rows k now nid (r # rs) =
     (if mobile_number r = k
      then r\<lparr>click_count := click_count r + 1, last_updated := now\<rparr> # rs
      else r # upsert_rows k now nid rs)"

definition upsert :: "string \<Rightarrow> nat \<Rightarrow> db \<Rightarrow> db" where
  "upsert k now d =
     d\<lparr>mobile_searches := upsert_rows k now (next_id d) (mobile_searches d),
       next_id := Suc (next_id d)\<rparr>"

text \<open>
  \<^verbatim>\<open>UPDATE mobile_searches SET name = ? WHERE mobile_number = ?\<close>. The column
  \<^verbatim>\<open>last_updated\<close> is declared \<^verbatim>\<open>ON UPDATE CURRENT_TIMESTAMP\<close>, so a row whose
  name changes gets the current time as well.
\<close>

definition set_name :: "string \<Rightarrow> string \<Rightarrow> nat \<Rightarrow> db \<Rightarrow> db" where
  "set_name nm k now d =
     d\<lparr>mobile_searches :=
         map (\<lambda>r. if mobile_number r = k \<and> name r \<noteq> Some nm
                   then r\<lparr>name := Some nm, last_updated := now\<rparr> else r)
             (mobile_searches d)\<rparr>"

text \<open>
  \<^verbatim>\<open>pool.execute\<close> on each of the four statements. A statement may throw (storage
  unavailable, a value the column refuses); whether it does is an input, one flag per
  statement.
\<close>

definition execute_upsert :: "bool \<Rightarrow> jsval \<Rightarrow> nat \<Rightarrow> db \<Rightarrow> db_error + db" where
  "execute_upsert fails p now d =
     (case bind p of
        None \<Rightarrow> Inl DbError
      | Some k \<Rightarrow> if fails then Inl DbError else Inr (upsert k now d))"

definition execute_select_result :: "bool \<Rightarrow> jsval \<Rightarrow> db \<Rightarrow> db_error + test_result list" where
  "execute_select_result fails p d =
     (case bind p of
        None \<Rightarrow> Inl DbError
      | Some k \<Rightarrow> if fails then Inl DbError else Inr (filter (\<lambda>r. phone r = k) (test_results d)))"

definition execute_set_name :: "bool \<Rightarrow> string \<Rightarrow> jsval \<Rightarrow> nat \<Rightarrow> db \<Rightarrow> db_error + db" where
  "execute_set_name fails nm p now d =
     (case bind p of
        None \<Rightarrow> Inl DbError
      | Some k \<Rightarrow> if fails then Inl DbError else Inr (set_name nm k now d))"

text \<open>
  \<^verbatim>\<open>SELECT id, mobile_number, click_count, name, last_updated FROM mobile_searches
  ORDER BY last_updated DESC\<close>
\<close>

definition execute_select_searches :: "bool \<Rightarrow> db \<Rightarrow> db_error + search_record list" where
  "execute_select_searches fails d =
     (if fails then Inl DbError else Inr (rev (sort_key last_updated (mobile_searches d))))"

section \<open>Requests, responses and the handlers\<close>

record faults =
  track_fail :: bool
  lookup_fail :: bool
  name_fail :: bool

record env =
  ADMIN_SECRET :: "string option"
  WHATSAPP_LINK :: "string option"

text \<open>
  The JSON body sent: an error message, the track operation's \<^verbatim>\<open>{ success, data,
  whatsappLink? }\<close>, or the admin list's \<^verbatim>\<open>{ success, data, total }\<close>.
  \<^verbatim>\<open>res.json\<close> leaves out a property whose value is \<^verbatim>\<open>undefined\<close>, so
  \<open>None\<close> as the link is a body without the property.
\<close>

datatype body =
  ErrorBody string
| ResultBody test_result "string option"
| ListBody "search_record list" nat

record response =
  status :: nat
  payload :: body

datatype db_op =
  OpUpsert jsval
| OpSelectResult jsval
| OpSetName string jsval
| OpSelectSearches

record outcome =
  response :: response
  db_after :: db
  ops :: "db_op list"

definition best_effort :: "db_error + db \<Rightarrow> db \<Rightarrow> db" where
  "best_effort r d = (case r of Inl e \<Rightarrow> d | Inr d' \<Rightarrow> d')"

text \<open>
  A handler takes the faults of its statements, the time \<open>now\<close> that
  \<^verbatim>\<open>CURRENT_TIMESTAMP\<close> has during the request, the \<^verbatim>\<open>mobileNumber\<close> of the body
  and the tables, and returns the response sent, the tables afterwards and the statements it
  issued, in order.
\<close>

text \<open>\<^verbatim>\<open>app.post('/api/track-search')\<close> of \<^verbatim>\<open>server.js\<close>.\<close>

definition track_search :: "faults \<Rightarrow> nat \<Rightarrow> jsval \<Rightarrow> db \<Rightarrow> outcome" where
  "track_search f now mobileNumber d =
     (let d1 = best_effort (execute_upsert (track_fail f) (or_empty mobileNumber) now d) d;
          log1 = [OpUpsert (or_empty mobileNumber)]
      in if invalid mobileNumber
         then \<lparr>response = \<lparr>status = 400, payload = ErrorBody ''Invalid mobile number''\<rparr>,
               db_after = d1, ops = log1\<rparr>
         else
           (case execute_select_result (lookup_fail f) mobileNumber d1 of
              Inl err \<Rightarrow>
                \<lparr>response = \<lparr>status = 500, payload = ErrorBody ''Internal server error''\<rparr>,
                 db_after = d1, ops = log1 @ [OpSelectResult mobileNumber]\<rparr>
            | Inr [] \<Rightarrow>
                \<lparr>response = \<lparr>status = 404,
                              payload = ErrorBody ''No test result found for this mobile number''\<rparr>,
                 db_after = d1, ops = log1 @ [OpSelectResult mobileNumber]\<rparr>
            | Inr (r # rest) \<Rightarrow>
                \<lparr>response = \<lparr>status = 200, payload = ResultBody r None\<rparr>,
                 db_after = best_effort (execute_set_name (name_fail f) (tr_name r) mobileNumber now d1) d1,
                 ops = log1 @ [OpSelectResult mobileNumber, OpSetName (tr_name r) mobileNumber]\<rparr>))"

text \<open>
  \<^verbatim>\<open>app.post('/api/search-result')\<close>. The route is registered for POST only, so
  \<^verbatim>\<open>req.method === 'POST'\<close> holds in the handler and the guard of the tracking write
  is the truthiness of \<^verbatim>\<open>mobileNumber\<close>.
\<close>

definition search_result :: "env \<Rightarrow> faults \<Rightarrow> nat \<Rightarrow> jsval \<Rightarrow> db \<Rightarrow> outcome" where
  "search_result e f now mobileNumber d =
     (let d1 = (if truthy mobileNumber
                then best_effort (execute_upsert (track_fail f) mobileNumber now d) d else d);
          log1 = (if truthy mobileNumber then [OpUpsert mobileNumber] else [])
      in if invalid mobileNumber
         then \<lparr>response = \<lparr>status = 400, payload = ErrorBody ''Invalid mobile number''\<rparr>,
               db_after = d1, ops = log1\<rparr>
         else
           (case execute_select_result (lookup_fail f) mobileNumber d1 of
              Inl err \<Rightarrow>
                \<lparr>response = \<lparr>status = 500, payload = ErrorBody ''Database temporarily unavailable''\<rparr>,
                 db_after = d1, ops = log1 @ [OpSelectResult mobileNumber]\<rparr>
            | Inr [] \<Rightarrow>
                \<lparr>response = \<lparr>status = 404,
                              payload = ErrorBody ''No test result found for this mobile number''\<rparr>,
                 db_after = d1, ops = log1 @ [OpSelectResult mobileNumber]\<rparr>
            | Inr (r # rest) \<Rightarrow>
                \<lparr>response = \<lparr>status = 200,
                              payload = ResultBody r (if result r = Some ''Selected''
                                                      then WHATSAPP_LINK e else None)\<rparr>,
                 db_after = best_effort (execute_set_name (name_fail f) (tr_name r) mobileNumber now d1) d1,
                 ops = log1 @ [OpSelectResult mobileNumber, OpSetName (tr_name r) mobileNumber]\<rparr>))"

text \<open>
  \<^verbatim>\<open>app.get('/api/admin/searches')\<close>, with \<^verbatim>\<open>secret !== process.env.ADMIN_SECRET\<close>
  as inequality of the two values; an unset variable is \<^verbatim>\<open>undefined\<close>. The flag
  \<open>fails\<close> is the failure of the query; \<open>msg\<close> is the message of the 500 response,
  which is all the two files differ in.
\<close>

definition env_value :: "string option \<Rightarrow> jsval" where
  "env_value v = (case v of None \<Rightarrow> JUndefined | Some s \<Rightarrow> JStr s)"

definition admin_searches :: "string \<Rightarrow> env \<Rightarrow> bool \<Rightarrow> jsval \<Rightarrow> db \<Rightarrow> outcome" where
  "admin_searches msg e fails secret d =
     (if secret \<noteq> env_value (ADMIN_SECRET e)
      then \<lparr>response = \<lparr>status = 401, payload = ErrorBody ''Unauthorized''\<rparr>,
            db_after = d, ops = []\<rparr>
      else
        (case execute_select_searches fails d of
           Inl err \<Rightarrow> \<lparr>response = \<lparr>status = 500, payload = ErrorBody msg\<rparr>,
                       db_after = d, ops = [OpSelectSearches]\<rparr>
         | Inr rows \<Rightarrow> \<lparr>response = \<lparr>status = 200, payload = ListBody rows (length rows)\<rparr>,
                        db_after = d, ops = [OpSelectSearches]\<rparr>))"

definition admin_searches_server :: "env \<Rightarrow> bool \<Rightarrow> jsval \<Rightarrow> db \<Rightarrow> outcome" where
  "admin_searches_server = admin_searches ''Internal server error''"

definition admin_searches_part2 :: "env \<Rightarrow> bool \<Rightarrow> jsval \<Rightarrow> db \<Rightarrow> outcome" where
  "admin_searches_part2 = admin_searches ''Database temporarily unavailable''"

section \<open>Reading the tables and the statements issued\<close>

text \<open>The row of \<^verbatim>\<open>mobile_searches\<close> with a given key, and its count (0 without a row).\<close>

definition search_row :: "string \<Rightarrow> db \<Rightarrow> search_record option" where
  "search_row k d = find (\<lambda>r. mobile_number r = k) (mobile_searches d)"

definition clicks :: "string \<Rightarrow> db \<Rightarrow> int" where
  "clicks k d = (case search_row k d of None \<Rightarrow> 0 | Some r \<Rightarrow> click_count r)"

text \<open>The parameters of the tracking upserts, and of the lookups, among the statements issued.\<close>

fun upsert_params :: "db_op list \<Rightarrow> jsval list" where
  "upsert_params [] = []"
| "upsert_params (OpUpsert p # xs) = p # upsert_params xs"
| "upsert_params (x # xs) = upsert_params xs"

fun result_queries :: "db_op list \<Rightarrow> jsval list" where
  "result_queries [] = []"
| "result_queries (OpSelectResult p # xs) = p # result_queries xs"
| "result_queries (x # xs) = result_queries xs"

text \<open>A sequence of requests to one handler, each with its faults, its time and its body.\<close>

fun run_track_search :: "(faults \<times> nat \<times> jsval) list \<Rightarrow> db \<Rightarrow> db" where
  "run_track_search [] d = d"
| "run_track_search ((f, now, v) # rs) d = run_track_search rs (db_after (track_search f now v d))"

fun run_search_result :: "env \<Rightarrow> (faults \<times> nat \<times> jsval) list \<Rightarrow> db \<Rightarrow> db" where
  "run_search_result e [] d = d"
| "run_search_result e ((f, now, v) # rs) d =
     run_search_result e rs (db_after (search_result e f now v d))"

text \<open>The values of the concrete scenarios.\<close>

definition asha :: test_result where
  "asha = \<lparr>tr_id = 1, tr_name = ''Asha'', phone = ''9876543210'', current_group = None,
            exam_date = None, result = Some ''Selected''\<rparr>"

definition empty_db :: db where
  "empty_db = \<lparr>mobile_searches = [], test_results = [], next_id = 1\<rparr>"

definition seeded_db :: db where
  "seeded_db = \<lparr>mobile_searches = [], test_results = [asha], next_id = 1\<rparr>"

definition all_ok :: faults where
  "all_ok = \<lparr>track_fail = False, lookup_fail = False, name_fail = False\<rparr>"

definition sample_env :: env where
  "sample_env = \<lparr>ADMIN_SECRET = Some ''s3cret'', WHATSAPP_LINK = Some ''https://chat.example/invite''\<rparr>"

definition visited_db :: db where
  "visited_db =
     \<lparr>mobile_searches =
        [\<lparr>row_id = 1, mobile_number = ''9876543210'', click_count = 2, name = Some ''Asha'',
          last_updated = 3\<rparr>,
         \<lparr>row_id = 2, mobile_number = [], click_count = 5, name = None, last_updated = 9\<rparr>],
      test_results = [asha], next_id = 3\<rparr>"

section \<open>Facts about the validation check and the statements\<close>

lemma valid_mobile_accepted: "valid_mobile s \<Longrightarrow> \<not> invalid (JStr s)"
  by (auto simp: invalid_def regex_test_def valid_mobile_def)

lemma invalid_string: "invalid (JStr s) = (\<not> valid_mobile s)"
  by (auto simp: invalid_def regex_test_def valid_mobile_def)

lemma accepted_truthy: "\<not> invalid v \<Longrightarrow> truthy v"
  by (simp add: invalid_def split: if_splits)

lemma falsy_invalid: "\<not> truthy v \<Longrightarrow> invalid v"
  by (simp add: invalid_def)

lemma invalid_missing: "invalid JUndefined" "invalid JNull" "invalid (JStr [])"
  by (simp_all add: invalid_def)

lemma truthy_bind: "truthy v \<Longrightarrow> \<exists>k. bind v = Some k"
  by (cases v) auto

lemma or_empty_truthy: "truthy v \<Longrightarrow> or_empty v = v"
  by (simp add: or_empty_def)

lemma or_empty_falsy: "\<not> truthy v \<Longrightarrow> or_empty v = JStr []"
  by (simp add: or_empty_def)

lemma test_results_upsert [simp]: "test_results (upsert k now d) = test_results d"
  by (simp add: upsert_def)

lemma test_results_set_name [simp]: "test_results (set_name nm k now d) = test_results d"
  by (simp add: set_name_def)

lemma test_results_tracked [simp]:
  "test_results (best_effort (execute_upsert b p now d) d) = test_results d"
  by (simp add: best_effort_def execute_upsert_def split: option.splits)

lemma test_results_named [simp]:
  "test_results (best_effort (execute_set_name b nm p now d) d) = test_results d"
  by (simp add: best_effort_def execute_set_name_def split: option.splits)

lemma select_result_cong:
  "test_results d = test_results d' \<Longrightarrow>
   execute_select_result b p d = execute_select_result b p d'"
  by (simp add: execute_select_result_def split: option.splits)

lemma select_after_track [simp]:
  "execute_select_result b p (best_effort (execute_upsert c q now d) d) = execute_select_result b p d"
  by (rule select_result_cong) simp

lemma select_result_found:
  "truthy v \<Longrightarrow> \<not> b \<Longrightarrow> bind v = Some k \<Longrightarrow>
   execute_select_result b v d = Inr (filter (\<lambda>r. phone r = k) (test_results d))"
  by (simp add: execute_select_result_def)

lemma select_result_failed:
  "b \<Longrightarrow> execute_select_result b v d = Inl DbError"
  by (simp add: execute_select_result_def split: option.splits)

lemma find_upsert_rows_same:
  "find (\<lambda>r. mobile_number r = k) (upsert_rows k now nid rs) =
     Some (case find (\<lambda>r. mobile_number r = k) rs of
             None \<Rightarrow> \<lparr>row_id = nid, mobile_number = k, click_count = 1, name = None, last_updated = now\<rparr>
           | Some r \<Rightarrow> r\<lparr>click_count := click_count r + 1, last_updated := now\<rparr>)"
  by (induction rs) auto

lemma find_upsert_rows_other:
  "k' \<noteq> k \<Longrightarrow> find (\<lambda>r. mobile_number r = k') (upsert_rows k now nid rs) =
     find (\<lambda>r. mobile_number r = k') rs"
  by (induction rs) auto

lemma find_set_name_rows:
  "find (\<lambda>r. mobile_number r = k')
     (map (\<lambda>r. if mobile_number r = k \<and> name r \<noteq> Some nm
               then r\<lparr>name := Some nm, last_updated := now\<rparr> else r) rs) =
   map_option (\<lambda>r. if mobile_number r = k \<and> name r \<noteq> Some nm
               then r\<lparr>name := Some nm, last_updated := now\<rparr> else r)
     (find (\<lambda>r. mobile_number r = k') rs)"
  by (induction rs) auto

lemma key_rows_upsert_rows:
  "length (filter (\<lambda>r. mobile_number r = k) (upsert_rows k now nid rs)) =
     max 1 (length (filter (\<lambda>r. mobile_number r = k) rs))"
  by (induction rs) auto

lemma clicks_upsert: "clicks k' (upsert k now d) = clicks k' d + (if k' = k then 1 else 0)"
  by (auto simp: clicks_def search_row_def upsert_def find_upsert_rows_same find_upsert_rows_other
           split: option.splits)

lemma clicks_set_name [simp]: "clicks k' (set_name nm k now d) = clicks k' d"
  by (auto simp: clicks_def search_row_def set_name_def find_set_name_rows split: option.splits)

lemma clicks_named [simp]:
  "clicks k (best_effort (execute_set_name b nm p now d) d) = clicks k d"
  by (simp add: best_effort_def execute_set_name_def split: option.splits)

lemma clicks_tracked:
  "clicks k (best_effort (execute_upsert b p now d) d) =
     clicks k d + (if \<not> b \<and> bind p = Some k then 1 else 0)"
  by (auto simp: best_effort_def execute_upsert_def clicks_upsert split: option.splits)

lemma search_row_upsert_same:
  "\<exists>r. search_row k (upsert k now d) = Some r \<and> click_count r = clicks k d + 1 \<and> last_updated r = now
       \<and> mobile_number r = k"
  by (auto simp: clicks_def search_row_def upsert_def find_upsert_rows_same dest: find_Some_iff[THEN iffD1]
           split: option.splits)

lemma search_row_tracked:
  assumes "\<not> b" and "bind p = Some k"
  shows "\<exists>r. search_row k (best_effort (execute_upsert b p now d) d) = Some r \<and>
             click_count r = (case search_row k d of None \<Rightarrow> 1 | Some old \<Rightarrow> click_count old + 1) \<and>
             last_updated r = now"
proof -
  have count: "clicks k d + 1 = (case search_row k d of None \<Rightarrow> 1 | Some old \<Rightarrow> click_count old + 1)"
    by (simp add: clicks_def split: option.splits)
  have "best_effort (execute_upsert b p now d) d = upsert k now d"
    using assms by (simp add: best_effort_def execute_upsert_def)
  then show ?thesis
    using search_row_upsert_same [of k now d] unfolding count by auto
qed

lemma search_row_named:
  assumes "search_row k d = Some r" and "last_updated r = now"
  shows "\<exists>r'. search_row k (best_effort (execute_set_name b nm p now d) d) = Some r' \<and>
              click_count r' = click_count r \<and> last_updated r' = now"
proof (cases "execute_set_name b nm p now d")
  case (Inl err)
  then show ?thesis using assms by (simp add: best_effort_def)
next
  case (Inr d')
  then obtain k' where "d' = set_name nm k' now d"
    by (auto simp: execute_set_name_def split: option.splits if_splits)
  then show ?thesis
    using assms Inr
    by (auto simp: best_effort_def search_row_def set_name_def find_set_name_rows)
qed

lemma select_searches_sorted:
  "sorted_wrt (\<lambda>a b. last_updated b \<le> last_updated a) (rev (sort_key last_updated rows))"
proof -
  have "sorted (map last_updated (sort_key last_updated rows))"
    by (rule sorted_sort_key)
  then have "sorted_wrt (\<lambda>a b. last_updated a \<le> last_updated b) (sort_key last_updated rows)"
    by (simp add: sorted_map)
  then show ?thesis
    by (simp add: sorted_wrt_rev)
qed

lemma select_searches_all: "mset (rev (sort_key last_updated rows)) = mset rows"
  by simp

section \<open>The handlers, one branch at a time\<close>

lemma lookup_cases:
  obtains (Failed) e where "execute_select_result b v d = Inl e"
  | (Empty) "execute_select_result b v d = Inr []"
  | (Found) r rest where "execute_select_result b v d = Inr (r # rest)"
proof (cases "execute_select_result b v d")
  case (Inl e)
  then show ?thesis by (rule Failed)
next
  case (Inr rows)
  then show ?thesis by (cases rows) (auto intro: Empty Found)
qed

lemma track_search_invalid:
  "invalid v \<Longrightarrow> track_search f now v d =
     \<lparr>response = \<lparr>status = 400, payload = ErrorBody ''Invalid mobile number''\<rparr>,
      db_after = best_effort (execute_upsert (track_fail f) (or_empty v) now d) d,
      ops = [OpUpsert (or_empty v)]\<rparr>"
  by (simp add: track_search_def Let_def)

lemma track_search_error:
  "\<not> invalid v \<Longrightarrow> execute_select_result (lookup_fail f) v d = Inl e \<Longrightarrow>
   track_search f now v d =
     \<lparr>response = \<lparr>status = 500, payload = ErrorBody ''Internal server error''\<rparr>,
      db_after = best_effort (execute_upsert (track_fail f) (or_empty v) now d) d,
      ops = [OpUpsert (or_empty v), OpSelectResult v]\<rparr>"
  by (simp add: track_search_def Let_def)

lemma track_search_none:
  "\<not> invalid v \<Longrightarrow> execute_select_result (lookup_fail f) v d = Inr [] \<Longrightarrow>
   track_search f now v d =
     \<lparr>response = \<lparr>status = 404, payload = ErrorBody ''No test result found for this mobile number''\<rparr>,
      db_after = best_effort (execute_upsert (track_fail f) (or_empty v) now d) d,
      ops = [OpUpsert (or_empty v), OpSelectResult v]\<rparr>"
  by (simp add: track_search_def Let_def)

lemma track_search_found:
  "\<not> invalid v \<Longrightarrow> execute_select_result (lookup_fail f) v d = Inr (r # rest) \<Longrightarrow>
   track_search f now v d =
     \<lparr>response = \<lparr>status = 200, payload = ResultBody r None\<rparr>,
      db_after = best_effort (execute_set_name (name_fail f) (tr_name r) v now
                   (best_effort (execute_upsert (track_fail f) (or_empty v) now d) d))
                   (best_effort (execute_upsert (track_fail f) (or_empty v) now d) d),
      ops = [OpUpsert (or_empty v), OpSelectResult v, OpSetName (tr_name r) v]\<rparr>"
  by (simp add: track_search_def Let_def)

lemma search_result_invalid:
  "invalid v \<Longrightarrow> search_result e f now v d =
     \<lparr>response = \<lparr>status = 400, payload = ErrorBody ''Invalid mobile number''\<rparr>,
      db_after = (if truthy v then best_effort (execute_upsert (track_fail f) v now d) d else d),
      ops = (if truthy v then [OpUpsert v] else [])\<rparr>"
  by (simp add: search_result_def Let_def)

lemma search_result_error:
  "\<not> invalid v \<Longrightarrow> execute_select_result (lookup_fail f) v d = Inl err \<Longrightarrow>
   search_result e f now v d =
     \<lparr>response = \<lparr>status = 500, payload = ErrorBody ''Database temporarily unavailable''\<rparr>,
      db_after = best_effort (execute_upsert (track_fail f) v now d) d,
      ops = [OpUpsert v, OpSelectResult v]\<rparr>"
  by (simp add: search_result_def Let_def accepted_truthy)

lemma search_result_none:
  "\<not> invalid v \<Longrightarrow> execute_select_result (lookup_fail f) v d = Inr [] \<Longrightarrow>
   search_result e f now v d =
     \<lparr>response = \<lparr>status = 404, payload = ErrorBody ''No test result found for this mobile number''\<rparr>,
      db_after = best_effort (execute_upsert (track_fail f) v now d) d,
      ops = [OpUpsert v, OpSelectResult v]\<rparr>"
  by (simp add: search_result_def Let_def accepted_truthy)

lemma search_result_found:
  "\<not> invalid v \<Longrightarrow> execute_select_result (lookup_fail f) v d = Inr (r # rest) \<Longrightarrow>
   search_result e f now v d =
     \<lparr>response = \<lparr>status = 200,
                   payload = ResultBody r (if result r = Some ''Selected'' then WHATSAPP_LINK e else None)\<rparr>,
      db_after = best_effort (execute_set_name (name_fail f) (tr_name r) v now
                   (best_effort (execute_upsert (track_fail f) v now d) d))
                   (best_effort (execute_upsert (track_fail f) v now d) d),
      ops = [OpUpsert v, OpSelectResult v, OpSetName (tr_name r) v]\<rparr>"
  by (simp add: search_result_def Let_def accepted_truthy)

lemma search_result_falsy:
  "\<not> truthy v \<Longrightarrow>
   search_result e f now v d =
     \<lparr>response = \<lparr>status = 400, payload = ErrorBody ''Invalid mobile number''\<rparr>,
      db_after = d, ops = []\<rparr>"
  by (simp add: search_result_invalid falsy_invalid)

lemma invalid_rejected:
  assumes "invalid v"
  shows "response (track_search f now v d) =
           \<lparr>status = 400, payload = ErrorBody ''Invalid mobile number''\<rparr>"
    and "result_queries (ops (track_search f now v d)) = []"
    and "response (search_result e f now v d) =
           \<lparr>status = 400, payload = ErrorBody ''Invalid mobile number''\<rparr>"
    and "result_queries (ops (search_result e f now v d)) = []"
  using assms by (simp_all add: track_search_invalid search_result_invalid)

lemma admin_searches_denied:
  "secret \<noteq> env_value (ADMIN_SECRET e) \<Longrightarrow>
   admin_searches msg e fails secret d =
     \<lparr>response = \<lparr>status = 401, payload = ErrorBody ''Unauthorized''\<rparr>, db_after = d, ops = []\<rparr>"
  by (simp add: admin_searches_def)

lemma admin_searches_granted:
  "secret = env_value (ADMIN_SECRET e) \<Longrightarrow> \<not> fails \<Longrightarrow>
   admin_searches msg e fails secret d =
     \<lparr>response = \<lparr>status = 200,
                   payload = ListBody (rev (sort_key last_updated (mobile_searches d)))
                                      (length (mobile_searches d))\<rparr>,
      db_after = d, ops = [OpSelectSearches]\<rparr>"
  by (simp add: admin_searches_def execute_select_searches_def)

lemma admin_searches_failed:
  "secret = env_value (ADMIN_SECRET e) \<Longrightarrow> fails \<Longrightarrow>
   admin_searches msg e fails secret d =
     \<lparr>response = \<lparr>status = 500, payload = ErrorBody msg\<rparr>, db_after = d, ops = [OpSelectSearches]\<rparr>"
  by (simp add: admin_searches_def execute_select_searches_def)

section \<open>What a request leaves behind\<close>

lemma test_results_track_search [simp]:
  "test_results (db_after (track_search f now v d)) = test_results d"
proof (cases "invalid v")
  case True
  then show ?thesis by (simp add: track_search_invalid)
next
  case False
  show ?thesis
    by (cases rule: lookup_cases [of "lookup_fail f" v d])
       (simp_all add: False track_search_error track_search_none track_search_found)
qed

lemma test_results_search_result [simp]:
  "test_results (db_after (search_result e f now v d)) = test_results d"
proof (cases "invalid v")
  case True
  then show ?thesis by (simp add: search_result_invalid)
next
  case False
  show ?thesis
    by (cases rule: lookup_cases [of "lookup_fail f" v d])
       (simp_all add: False search_result_error search_result_none search_result_found)
qed

lemma track_search_ops:
  "\<exists>rest. ops (track_search f now v d) = OpUpsert (or_empty v) # rest \<and> upsert_params rest = []"
proof (cases "invalid v")
  case True
  then show ?thesis by (simp add: track_search_invalid)
next
  case False
  show ?thesis
    by (cases rule: lookup_cases [of "lookup_fail f" v d])
       (simp_all add: False track_search_error track_search_none track_search_found)
qed

lemma search_result_ops:
  "truthy v \<Longrightarrow>
   \<exists>rest. ops (search_result e f now v d) = OpUpsert v # rest \<and> upsert_params rest = []"
proof (cases "invalid v")
  case True
  moreover assume "truthy v"
  ultimately show ?thesis by (simp add: search_result_invalid)
next
  case False
  show ?thesis
    by (cases rule: lookup_cases [of "lookup_fail f" v d])
       (simp_all add: False search_result_error search_result_none search_result_found)
qed

lemma clicks_track_search:
  "clicks k (db_after (track_search f now v d)) =
     clicks k d + (if \<not> track_fail f \<and> bind (or_empty v) = Some k then 1 else 0)"
proof (cases "invalid v")
  case True
  then show ?thesis by (simp add: track_search_invalid clicks_tracked)
next
  case False
  show ?thesis
    by (cases rule: lookup_cases [of "lookup_fail f" v d])
       (simp_all add: False track_search_error track_search_none track_search_found clicks_tracked)
qed

lemma clicks_search_result:
  "clicks k (db_after (search_result e f now v d)) =
     clicks k d + (if truthy v \<and> \<not> track_fail f \<and> bind v = Some k then 1 else 0)"
proof (cases "invalid v")
  case True
  then show ?thesis by (simp add: search_result_invalid clicks_tracked)
next
  case False
  then have "truthy v" by (rule accepted_truthy)
  then show ?thesis
    by (cases rule: lookup_cases [of "lookup_fail f" v d])
       (simp_all add: False search_result_error search_result_none search_result_found clicks_tracked)
qed

lemma search_row_track_search:
  assumes "\<not> track_fail f" and "bind (or_empty v) = Some k"
  shows "\<exists>r. search_row k (db_after (track_search f now v d)) = Some r \<and>
             click_count r = (case search_row k d of None \<Rightarrow> 1 | Some old \<Rightarrow> click_count old + 1) \<and>
             last_updated r = now"
proof -
  let ?d1 = "best_effort (execute_upsert (track_fail f) (or_empty v) now d) d"
  obtain r where r: "search_row k ?d1 = Some r"
      "click_count r = (case search_row k d of None \<Rightarrow> 1 | Some old \<Rightarrow> click_count old + 1)"
      "last_updated r = now"
    using search_row_tracked [OF assms, of now d] by blast
  show ?thesis
  proof (cases "invalid v")
    case True
    then show ?thesis using r by (simp add: track_search_invalid)
  next
    case False
    show ?thesis
    proof (cases rule: lookup_cases [of "lookup_fail f" v d])
      case (Failed err)
      then show ?thesis using r by (simp add: track_search_error [OF False Failed])
    next
      case Empty
      then show ?thesis using r by (simp add: track_search_none [OF False Empty])
    next
      case (Found row rest)
      show ?thesis
        using search_row_named [OF r(1) r(3), of "name_fail f" "tr_name row" v] r(2)
        by (simp add: track_search_found [OF False Found])
    qed
  qed
qed

lemma search_row_search_result:
  assumes "truthy v" and "\<not> track_fail f" and "bind v = Some k"
  shows "\<exists>r. search_row k (db_after (search_result e f now v d)) = Some r \<and>
             click_count r = (case search_row k d of None \<Rightarrow> 1 | Some old \<Rightarrow> click_count old + 1) \<and>
             last_updated r = now"
proof -
  let ?d1 = "best_effort (execute_upsert (track_fail f) v now d) d"
  obtain r where r: "search_row k ?d1 = Some r"
      "click_count r = (case search_row k d of None \<Rightarrow> 1 | Some old \<Rightarrow> click_count old + 1)"
      "last_updated r = now"
    using search_row_tracked [OF assms(2,3), of now d] by blast
  show ?thesis
  proof (cases "invalid v")
    case True
    then show ?thesis using r assms(1) by (simp add: search_result_invalid)
  next
    case False
    show ?thesis
    proof (cases rule: lookup_cases [of "lookup_fail f" v d])
      case (Failed err)
      then show ?thesis using r by (simp add: search_result_error [OF False Failed])
    next
      case Empty
      then show ?thesis using r by (simp add: search_result_none [OF False Empty])
    next
      case (Found row rest)
      show ?thesis
        using search_row_named [OF r(1) r(3), of "name_fail f" "tr_name row" v] r(2)
        by (simp add: search_result_found [OF False Found])
    qed
  qed
qed

lemma clicks_run_track_search:
  "clicks k (run_track_search reqs d) =
     clicks k d + int (length (filter (\<lambda>(f, now, v). \<not> track_fail f \<and> bind (or_empty v) = Some k) reqs))"
proof (induction reqs arbitrary: d)
  case Nil
  then show ?case by simp
next
  case (Cons q reqs)
  obtain f now v where q: "q = (f, now, v)"
    by (cases q) auto
  show ?case
    by (simp add: q Cons.IH clicks_track_search)
qed

lemma clicks_run_search_result:
  "clicks k (run_search_result e reqs d) =
     clicks k d + int (length (filter (\<lambda>(f, now, v). truthy v \<and> \<not> track_fail f \<and> bind v = Some k) reqs))"
proof (induction reqs arbitrary: d)
  case Nil
  then show ?case by simp
next
  case (Cons q reqs)
  obtain f now v where q: "q = (f, now, v)"
    by (cases q) auto
  show ?case
    by (simp add: q Cons.IH clicks_search_result)
qed

lemma key_rows_run_falsy:
  assumes "list_all (\<lambda>(f, now, w). \<not> truthy w \<and> \<not> track_fail f) reqs" and "reqs \<noteq> []"
  shows "length (filter (\<lambda>r. mobile_number r = []) (mobile_searches (run_track_search reqs d))) =
           max 1 (length (filter (\<lambda>r. mobile_number r = []) (mobile_searches d)))"
  using assms
proof (induction reqs arbitrary: d)
  case Nil
  then show ?case by simp
next
  case (Cons q reqs)
  obtain f now v where q: "q = (f, now, v)"
    by (cases q) auto
  from Cons.prems q have v: "\<not> truthy v" and f: "\<not> track_fail f"
    and rest: "list_all (\<lambda>(f, now, w). \<not> truthy w \<and> \<not> track_fail f) reqs"
    by simp_all
  have step: "db_after (track_search f now v d) = upsert [] now d"
    using v f
    by (simp add: track_search_invalid falsy_invalid or_empty_falsy best_effort_def execute_upsert_def)
  have one: "length (filter (\<lambda>r. mobile_number r = []) (mobile_searches (upsert [] now d))) =
               max 1 (length (filter (\<lambda>r. mobile_number r = []) (mobile_searches d)))"
    by (simp add: upsert_def key_rows_upsert_rows)
  show ?case
  proof (cases "reqs = []")
    case True
    then show ?thesis by (simp add: q step one)
  next
    case False
    then show ?thesis
      using Cons.IH [OF rest False, of "upsert [] now d"]
      by (simp add: q step one)
  qed
qed

lemma clicks_run_falsy:
  assumes "list_all (\<lambda>(f, now, w). \<not> truthy w \<and> \<not> track_fail f) reqs"
  shows "clicks [] (run_track_search reqs d) = clicks [] d + int (length reqs)"
proof -
  have "filter (\<lambda>(f, now, v). \<not> track_fail f \<and> bind (or_empty v) = Some []) reqs = reqs"
    using assms by (induction reqs) (auto simp: or_empty_falsy)
  then show ?thesis
    by (simp add: clicks_run_track_search)
qed

lemma handlers_cong:
  assumes "lookup_fail f = lookup_fail g" and "test_results d = test_results d'"
  shows "response (track_search f now v d) = response (track_search g now' v d')"
    and "response (search_result e f now v d) = response (search_result e g now' v d')"
    and "ops (track_search f now v d) = ops (track_search g now' v d')"
    and "ops (search_result e f now v d) = ops (search_result e g now' v d')"
proof -
  have sel: "execute_select_result (lookup_fail g) v d' = execute_select_result (lookup_fail f) v d"
    using assms by (simp add: execute_select_result_def split: option.splits)
  have "response (track_search f now v d) = response (track_search g now' v d') \<and>
        response (search_result e f now v d) = response (search_result e g now' v d') \<and>
        ops (track_search f now v d) = ops (track_search g now' v d') \<and>
        ops (search_result e f now v d) = ops (search_result e g now' v d')"
  proof (cases "invalid v")
    case True
    then show ?thesis by (simp add: track_search_invalid search_result_invalid)
  next
    case False
    show ?thesis
    proof (cases rule: lookup_cases [of "lookup_fail f" v d])
      case (Failed err)
      then have other: "execute_select_result (lookup_fail g) v d' = Inl err"
        using sel by simp
      show ?thesis
        by (simp add: track_search_error [OF False Failed] track_search_error [OF False other]
                      search_result_error [OF False Failed] search_result_error [OF False other])
    next
      case Empty
      then have other: "execute_select_result (lookup_fail g) v d' = Inr []"
        using sel by simp
      show ?thesis
        by (simp add: track_search_none [OF False Empty] track_search_none [OF False other]
                      search_result_none [OF False Empty] search_result_none [OF False other])
    next
      case (Found r rest)
      then have other: "execute_select_result (lookup_fail g) v d' = Inr (r # rest)"
        using sel by simp
      show ?thesis
        by (simp add: track_search_found [OF False Found] track_search_found [OF False other]
                      search_result_found [OF False Found] search_result_found [OF False other])
    qed
  qed
  then show "response (track_search f now v d) = response (track_search g now' v d')"
    and "response (search_result e f now v d) = response (search_result e g now' v d')"
    and "ops (track_search f now v d) = ops (track_search g now' v d')"
    and "ops (search_result e f now v d) = ops (search_result e g now' v d')"
    by simp_all
qed

section \<open>The track operation\<close>

text \<open>
  C1, as the two handlers have it. \<^verbatim>\<open>/api/track-search\<close> of \<^verbatim>\<open>server.js\<close> issues
  exactly one tracking upsert, as its first statement, for every request, with
  \<^verbatim>\<open>mobileNumber || ''\<close> as the key. \<^verbatim>\<open>/api/search-result\<close> issues exactly one,
  as its first statement, when \<^verbatim>\<open>mobileNumber\<close> is truthy, and no statement at all
  otherwise. An upsert that succeeds leaves a row for the key with \<^verbatim>\<open>click_count\<close> 1
  when there was none and one more than before when there was one, and with
  \<^verbatim>\<open>last_updated\<close> the time of the request. Over a sequence of requests the count of a
  key grows by the number of requests whose upsert for that key was issued and succeeded,
  valid or not.
\<close>

theorem C1_tracking_upsert:
  "(\<exists>rest. ops (track_search f now v d) = OpUpsert (or_empty v) # rest \<and> upsert_params rest = []) \<and>
   (if truthy v
    then \<exists>rest. ops (search_result e f now v d) = OpUpsert v # rest \<and> upsert_params rest = []
    else ops (search_result e f now v d) = []) \<and>
   (\<not> track_fail f \<and> bind (or_empty v) = Some k \<longrightarrow>
      (\<exists>r. search_row k (db_after (track_search f now v d)) = Some r \<and>
           click_count r = (case search_row k d of None \<Rightarrow> 1 | Some old \<Rightarrow> click_count old + 1) \<and>
           last_updated r = now)) \<and>
   (truthy v \<and> \<not> track_fail f \<and> bind v = Some k \<longrightarrow>
      (\<exists>r. search_row k (db_after (search_result e f now v d)) = Some r \<and>
           click_count r = (case search_row k d of None \<Rightarrow> 1 | Some old \<Rightarrow> click_count old + 1) \<and>
           last_updated r = now)) \<and>
   clicks k (run_track_search reqs d) =
     clicks k d + int (length (filter (\<lambda>(f, now, v). \<not> track_fail f \<and> bind (or_empty v) = Some k) reqs)) \<and>
   clicks k (run_search_result e reqs d) =
     clicks k d + int (length (filter (\<lambda>(f, now, v). truthy v \<and> \<not> track_fail f \<and> bind v = Some k) reqs))"
proof (intro conjI impI)
  show "\<exists>rest. ops (track_search f now v d) = OpUpsert (or_empty v) # rest \<and> upsert_params rest = []"
    by (rule track_search_ops)
  show "if truthy v
    then \<exists>rest. ops (search_result e f now v d) = OpUpsert v # rest \<and> upsert_params rest = []
    else ops (search_result e f now v d) = []"
    by (simp add: search_result_ops search_result_falsy)
  show "clicks k (run_track_search reqs d) =
     clicks k d + int (length (filter (\<lambda>(f, now, v). \<not> track_fail f \<and> bind (or_empty v) = Some k) reqs))"
    by (rule clicks_run_track_search)
  show "clicks k (run_search_result e reqs d) =
     clicks k d + int (length (filter (\<lambda>(f, now, v). truthy v \<and> \<not> track_fail f \<and> bind v = Some k) reqs))"
    by (rule clicks_run_search_result)
next
  assume "\<not> track_fail f \<and> bind (or_empty v) = Some k"
  then show "\<exists>r. search_row k (db_after (track_search f now v d)) = Some r \<and>
           click_count r = (case search_row k d of None \<Rightarrow> 1 | Some old \<Rightarrow> click_count old + 1) \<and>
           last_updated r = now"
    by (simp add: search_row_track_search)
next
  assume "truthy v \<and> \<not> track_fail f \<and> bind v = Some k"
  then show "\<exists>r. search_row k (db_after (search_result e f now v d)) = Some r \<and>
           click_count r = (case search_row k d of None \<Rightarrow> 1 | Some old \<Rightarrow> click_count old + 1) \<and>
           last_updated r = now"
    by (simp add: search_row_search_result)
qed

theorem C1_tracking_upsert_witness:
  "\<not> track_fail all_ok \<and> bind (or_empty (JStr ''abc'')) = Some ''abc'' \<and> truthy (JStr ''abc'') \<and>
   invalid (JStr ''abc'') \<and>
   (\<exists>r. search_row ''abc'' (db_after (track_search all_ok 7 (JStr ''abc'') empty_db)) = Some r \<and>
        click_count r = 1 \<and> last_updated r = 7) \<and>
   (\<exists>r. search_row ''abc'' (db_after (search_result sample_env all_ok 7 (JStr ''abc'') empty_db)) = Some r \<and>
        click_count r = 1 \<and> last_updated r = 7) \<and>
   clicks ''abc'' (run_track_search [(all_ok, 7, JStr ''abc''), (all_ok, 8, JUndefined), (all_ok, 9, JStr ''abc'')]
                     empty_db) = 2"
proof -
  have fresh: "search_row ''abc'' empty_db = None" "clicks ''abc'' empty_db = 0"
    by (simp_all add: clicks_def search_row_def empty_db_def)
  have ok: "\<not> track_fail all_ok"
    by (simp add: all_ok_def)
  have bad: "invalid (JStr ''abc'')"
    by (simp add: invalid_def regex_test_def valid_mobile_def)
  show ?thesis
    using ok bad
          C1_tracking_upsert [of all_ok 7 "JStr ''abc''" empty_db sample_env "''abc''"
            "[(all_ok, 7, JStr ''abc''), (all_ok, 8, JUndefined), (all_ok, 9, JStr ''abc'')]"]
    by (simp add: fresh or_empty_def)
qed

text \<open>
  C1 as stated fails on \<^verbatim>\<open>/api/search-result\<close>: a request without a
  \<^verbatim>\<open>mobileNumber\<close> is answered 400 with no statement issued and the table as it was.
\<close>

theorem C1_counterexample_no_upsert_without_number:
  "search_result sample_env all_ok 7 JUndefined empty_db =
     \<lparr>response = \<lparr>status = 400, payload = ErrorBody ''Invalid mobile number''\<rparr>,
      db_after = empty_db, ops = []\<rparr>"
  by (simp add: search_result_falsy)

text \<open>
  C2 at a \<^verbatim>\<open>mobileNumber\<close> that is the JSON number 1234567890, not a string: the test
  of the pattern converts it to the string of its ten digits, the check lets it through, and
  both handlers query \<^verbatim>\<open>test_results\<close> and answer from the lookup (404 on an empty
  table) instead of 400.
\<close>

theorem C2_numeric_mobile_number_accepted:
  "response (track_search all_ok 7 (JNum 1234567890) empty_db) =
     \<lparr>status = 404, payload = ErrorBody ''No test result found for this mobile number''\<rparr> \<and>
   result_queries (ops (track_search all_ok 7 (JNum 1234567890) empty_db)) = [JNum 1234567890] \<and>
   response (search_result sample_env all_ok 7 (JNum 1234567890) empty_db) =
     \<lparr>status = 404, payload = ErrorBody ''No test result found for this mobile number''\<rparr> \<and>
   result_queries (ops (search_result sample_env all_ok 7 (JNum 1234567890) empty_db)) = [JNum 1234567890]"
proof -
  have accepted: "\<not> invalid (JNum 1234567890)"
    by (simp add: invalid_def regex_test_def valid_mobile_def is_digit_def show_nat.simps digit_char_def)
  have empty: "execute_select_result (lookup_fail all_ok) (JNum 1234567890) empty_db = Inr []"
    by (simp add: execute_select_result_def all_ok_def empty_db_def)
  show ?thesis
    by (simp add: track_search_none [OF accepted empty] search_result_none [OF accepted empty])
qed

text \<open>
  C3. A failure of the tracking upsert never changes the response. The response of either
  handler, and the statements it goes on to issue, depend on the request's
  \<^verbatim>\<open>mobileNumber\<close>, on whether the lookup fails and on the \<^verbatim>\<open>test_results\<close> table
  only: two runs that agree on these answer alike, whatever the tracking write and the name
  update do and whatever \<^verbatim>\<open>mobile_searches\<close> holds.
\<close>

theorem C3_tracking_failure_isolated:
  assumes "lookup_fail f = lookup_fail g" and "test_results d = test_results d'"
  shows "response (track_search f now v d) = response (track_search g now' v d') \<and>
         ops (track_search f now v d) = ops (track_search g now' v d') \<and>
         response (search_result e f now v d) = response (search_result e g now' v d') \<and>
         ops (search_result e f now v d) = ops (search_result e g now' v d')"
  using handlers_cong [OF assms] by blast

theorem C3_tracking_failure_isolated_witness:
  "lookup_fail (all_ok\<lparr>track_fail := True\<rparr>) = lookup_fail all_ok \<and>
   test_results seeded_db = test_results seeded_db \<and>
   response (track_search (all_ok\<lparr>track_fail := True\<rparr>) 7 (JStr ''9876543210'') seeded_db) =
     response (track_search all_ok 7 (JStr ''9876543210'') seeded_db) \<and>
   response (search_result sample_env (all_ok\<lparr>track_fail := True\<rparr>) 7 (JStr ''9876543210'') seeded_db) =
     response (search_result sample_env all_ok 7 (JStr ''9876543210'') seeded_db)"
  using C3_tracking_failure_isolated
          [of "all_ok\<lparr>track_fail := True\<rparr>" all_ok seeded_db seeded_db 7 "JStr ''9876543210''" 7 sample_env]
  by (simp add: all_ok_def)

text \<open>
  C4, as the two handlers have it. For a string of ten digits whose lookup finds a row,
  \<^verbatim>\<open>/api/search-result\<close> responds 200 with the row as \<^verbatim>\<open>data\<close> and with
  \<^verbatim>\<open>whatsappLink\<close> set to the configured \<^verbatim>\<open>WHATSAPP_LINK\<close> exactly when the row's
  \<^verbatim>\<open>result\<close> is \<^verbatim>\<open>Selected\<close>; \<^verbatim>\<open>/api/track-search\<close> of \<^verbatim>\<open>server.js\<close>
  responds 200 with the row and no \<^verbatim>\<open>whatsappLink\<close>, whatever the result.
\<close>

theorem C4_link_only_in_search_result:
  assumes "valid_mobile s" and "\<not> lookup_fail f"
      and "filter (\<lambda>r. phone r = s) (test_results d) = r # rest"
  shows "response (search_result e f now (JStr s) d) =
           \<lparr>status = 200,
            payload = ResultBody r (if result r = Some ''Selected'' then WHATSAPP_LINK e else None)\<rparr> \<and>
         response (track_search f now (JStr s) d) = \<lparr>status = 200, payload = ResultBody r None\<rparr>"
proof -
  have accepted: "\<not> invalid (JStr s)"
    using assms(1) by (rule valid_mobile_accepted)
  have found: "execute_select_result (lookup_fail f) (JStr s) d = Inr (r # rest)"
    using assms(2,3) by (simp add: execute_select_result_def)
  show ?thesis
    by (simp add: track_search_found [OF accepted found] search_result_found [OF accepted found])
qed

theorem C4_link_only_in_search_result_witness:
  "valid_mobile ''9876543210'' \<and> \<not> lookup_fail all_ok \<and>
   filter (\<lambda>r. phone r = ''9876543210'') (test_results seeded_db) = asha # [] \<and>
   response (search_result sample_env all_ok 7 (JStr ''9876543210'') seeded_db) =
     \<lparr>status = 200, payload = ResultBody asha (Some ''https://chat.example/invite'')\<rparr> \<and>
   response (track_search all_ok 7 (JStr ''9876543210'') seeded_db) =
     \<lparr>status = 200, payload = ResultBody asha None\<rparr>"
proof -
  have v: "valid_mobile ''9876543210''"
    by (simp add: valid_mobile_def is_digit_def)
  have ok: "\<not> lookup_fail all_ok"
    by (simp add: all_ok_def)
  have found: "filter (\<lambda>r. phone r = ''9876543210'') (test_results seeded_db) = asha # []"
    by (simp add: seeded_db_def asha_def)
  have sel: "result asha = Some ''Selected''"
    by (simp add: asha_def)
  show ?thesis
    using v ok found C4_link_only_in_search_result [OF v ok found, of sample_env 7]
    by (simp add: sel sample_env_def)
qed

text \<open>
  C4 as stated fails on \<^verbatim>\<open>/api/track-search\<close>: the row found is \<^verbatim>\<open>Selected\<close> and
  the response has no \<^verbatim>\<open>whatsappLink\<close>.
\<close>

theorem C4_counterexample_track_search_no_link:
  "result asha = Some ''Selected'' \<and>
   response (track_search all_ok 7 (JStr ''9876543210'') seeded_db) =
     \<lparr>status = 200, payload = ResultBody asha None\<rparr>"
proof -
  have accepted: "\<not> invalid (JStr ''9876543210'')"
    by (simp add: invalid_def regex_test_def valid_mobile_def is_digit_def)
  have found: "execute_select_result (lookup_fail all_ok) (JStr ''9876543210'') seeded_db = Inr (asha # [])"
    by (simp add: execute_select_result_def all_ok_def seeded_db_def asha_def)
  show ?thesis
    by (simp add: track_search_found [OF accepted found]) (simp add: asha_def)
qed

text \<open>
  C5. When the lookup on \<^verbatim>\<open>test_results\<close> fails for a \<^verbatim>\<open>mobileNumber\<close> that passed
  the validation check, the response is 500, whatever the two best-effort writes do:
  \<^verbatim>\<open>server.js\<close> answers from its outer \<^verbatim>\<open>catch\<close>, the other file from the
  \<^verbatim>\<open>catch\<close> around the query.
\<close>

theorem C5_lookup_failure_surfaced:
  assumes "\<not> invalid v" and "lookup_fail f"
  shows "response (track_search f now v d) =
           \<lparr>status = 500, payload = ErrorBody ''Internal server error''\<rparr> \<and>
         response (search_result e f now v d) =
           \<lparr>status = 500, payload = ErrorBody ''Database temporarily unavailable''\<rparr>"
proof -
  have "execute_select_result (lookup_fail f) v d = Inl DbError"
    using assms(2) by (rule select_result_failed)
  with assms(1) show ?thesis
    by (simp add: track_search_error search_result_error)
qed

theorem C5_lookup_failure_surfaced_witness:
  "\<not> invalid (JStr ''9876543210'') \<and> lookup_fail (all_ok\<lparr>lookup_fail := True\<rparr>) \<and>
   response (track_search (all_ok\<lparr>lookup_fail := True\<rparr>) 7 (JStr ''9876543210'') seeded_db) =
     \<lparr>status = 500, payload = ErrorBody ''Internal server error''\<rparr> \<and>
   response (search_result sample_env (all_ok\<lparr>lookup_fail := True\<rparr>) 7 (JStr ''9876543210'') seeded_db) =
     \<lparr>status = 500, payload = ErrorBody ''Database temporarily unavailable''\<rparr>"
proof -
  have accepted: "\<not> invalid (JStr ''9876543210'')"
    by (simp add: invalid_def regex_test_def valid_mobile_def is_digit_def)
  have fails: "lookup_fail (all_ok\<lparr>lookup_fail := True\<rparr>)"
    by simp
  show ?thesis
    using accepted fails
          C5_lookup_failure_surfaced [OF accepted fails, of 7 seeded_db sample_env]
    by simp
qed

text \<open>
  C6. For a string of ten digits with no row in \<^verbatim>\<open>test_results\<close>, the lookup
  answering, both handlers respond 404 with \<^verbatim>\<open>No test result found for this mobile
  number\<close>. When the tracking upsert succeeded, \<^verbatim>\<open>mobile_searches\<close> afterwards has
  a row for the number whose \<^verbatim>\<open>click_count\<close> is one more than before, 1 for a number
  never seen, and whose \<^verbatim>\<open>last_updated\<close> is the time of the request.
\<close>

theorem C6_not_found_still_tracked:
  assumes "valid_mobile s"
      and "filter (\<lambda>r. phone r = s) (test_results d) = []"
      and "\<not> lookup_fail f"
  shows "response (track_search f now (JStr s) d) =
           \<lparr>status = 404, payload = ErrorBody ''No test result found for this mobile number''\<rparr> \<and>
         response (search_result e f now (JStr s) d) =
           \<lparr>status = 404, payload = ErrorBody ''No test result found for this mobile number''\<rparr> \<and>
         (\<not> track_fail f \<longrightarrow>
            (\<exists>r. search_row s (db_after (track_search f now (JStr s) d)) = Some r \<and>
                 click_count r = (case search_row s d of None \<Rightarrow> 1 | Some old \<Rightarrow> click_count old + 1) \<and>
                 last_updated r = now) \<and>
            (\<exists>r. search_row s (db_after (search_result e f now (JStr s) d)) = Some r \<and>
                 click_count r = (case search_row s d of None \<Rightarrow> 1 | Some old \<Rightarrow> click_count old + 1) \<and>
                 last_updated r = now))"
proof -
  have accepted: "\<not> invalid (JStr s)"
    using assms(1) by (rule valid_mobile_accepted)
  then have t: "truthy (JStr s)"
    by (rule accepted_truthy)
  have empty: "execute_select_result (lookup_fail f) (JStr s) d = Inr []"
    using assms(2,3) by (simp add: execute_select_result_def)
  have responses:
    "response (track_search f now (JStr s) d) =
       \<lparr>status = 404, payload = ErrorBody ''No test result found for this mobile number''\<rparr>"
    "response (search_result e f now (JStr s) d) =
       \<lparr>status = 404, payload = ErrorBody ''No test result found for this mobile number''\<rparr>"
    by (simp_all add: track_search_none [OF accepted empty] search_result_none [OF accepted empty])
  have rows: "\<not> track_fail f \<longrightarrow>
            (\<exists>r. search_row s (db_after (track_search f now (JStr s) d)) = Some r \<and>
                 click_count r = (case search_row s d of None \<Rightarrow> 1 | Some old \<Rightarrow> click_count old + 1) \<and>
                 last_updated r = now) \<and>
            (\<exists>r. search_row s (db_after (search_result e f now (JStr s) d)) = Some r \<and>
                 click_count r = (case search_row s d of None \<Rightarrow> 1 | Some old \<Rightarrow> click_count old + 1) \<and>
                 last_updated r = now)"
  proof (intro impI conjI)
    assume ok: "\<not> track_fail f"
    have key: "bind (or_empty (JStr s)) = Some s" "bind (JStr s) = Some s"
      by (simp_all add: or_empty_truthy [OF t])
    show "\<exists>r. search_row s (db_after (track_search f now (JStr s) d)) = Some r \<and>
               click_count r = (case search_row s d of None \<Rightarrow> 1 | Some old \<Rightarrow> click_count old + 1) \<and>
               last_updated r = now"
      using ok key(1) by (rule search_row_track_search)
    show "\<exists>r. search_row s (db_after (search_result e f now (JStr s) d)) = Some r \<and>
               click_count r = (case search_row s d of None \<Rightarrow> 1 | Some old \<Rightarrow> click_count old + 1) \<and>
               last_updated r = now"
      using t ok key(2) by (rule search_row_search_result)
  qed
  show ?thesis
    using responses rows by blast
qed

theorem C6_not_found_still_tracked_witness:
  "valid_mobile ''9876543210'' \<and>
   filter (\<lambda>r. phone r = ''9876543210'') (test_results empty_db) = [] \<and>
   \<not> lookup_fail all_ok \<and> \<not> track_fail all_ok \<and>
   response (track_search all_ok 7 (JStr ''9876543210'') empty_db) =
     \<lparr>status = 404, payload = ErrorBody ''No test result found for this mobile number''\<rparr> \<and>
   (\<exists>r. search_row ''9876543210'' (db_after (track_search all_ok 7 (JStr ''9876543210'') empty_db)) = Some r \<and>
        click_count r = 1 \<and> last_updated r = 7)"
proof -
  have v: "valid_mobile ''9876543210''"
    by (simp add: valid_mobile_def is_digit_def)
  have none: "filter (\<lambda>r. phone r = ''9876543210'') (test_results empty_db) = []"
    by (simp add: empty_db_def)
  have ok: "\<not> lookup_fail all_ok" "\<not> track_fail all_ok"
    by (simp_all add: all_ok_def)
  have fresh: "search_row ''9876543210'' empty_db = None"
    by (simp add: search_row_def empty_db_def)
  show ?thesis
    using v none ok
          C6_not_found_still_tracked [OF v none ok(1), of 7 sample_env]
    by (simp add: fresh)
qed

text \<open>
  C8. With a string of ten digits that has a row in \<^verbatim>\<open>test_results\<close> and with both
  lookups answering, two calls in succession give the same 200 response with the same row
  (and, in \<^verbatim>\<open>/api/search-result\<close>, the same link); neither call changes
  \<^verbatim>\<open>test_results\<close>. When the tracking writes succeed the count of the number is one
  more after the first call and two more after the second. The response is the same whatever
  \<^verbatim>\<open>mobile_searches\<close> holds, so the count is no part of it.
\<close>

theorem C8_same_payload_twice:
  assumes "valid_mobile s"
      and "filter (\<lambda>r. phone r = s) (test_results d) = r # rest"
      and "\<not> lookup_fail f1" and "\<not> lookup_fail f2"
  shows "response (track_search f1 t1 (JStr s) d) = \<lparr>status = 200, payload = ResultBody r None\<rparr> \<and>
         response (track_search f2 t2 (JStr s) (db_after (track_search f1 t1 (JStr s) d))) =
           response (track_search f1 t1 (JStr s) d) \<and>
         response (search_result e f1 t1 (JStr s) d) =
           \<lparr>status = 200,
            payload = ResultBody r (if result r = Some ''Selected'' then WHATSAPP_LINK e else None)\<rparr> \<and>
         response (search_result e f2 t2 (JStr s) (db_after (search_result e f1 t1 (JStr s) d))) =
           response (search_result e f1 t1 (JStr s) d) \<and>
         test_results (db_after (track_search f1 t1 (JStr s) d)) = test_results d \<and>
         test_results (db_after (search_result e f1 t1 (JStr s) d)) = test_results d \<and>
         (\<not> track_fail f1 \<and> \<not> track_fail f2 \<longrightarrow>
            clicks s (db_after (track_search f1 t1 (JStr s) d)) = clicks s d + 1 \<and>
            clicks s (db_after (track_search f2 t2 (JStr s) (db_after (track_search f1 t1 (JStr s) d)))) =
              clicks s d + 2 \<and>
            clicks s (db_after (search_result e f1 t1 (JStr s) d)) = clicks s d + 1 \<and>
            clicks s (db_after (search_result e f2 t2 (JStr s) (db_after (search_result e f1 t1 (JStr s) d)))) =
              clicks s d + 2) \<and>
         response (track_search f1 t1 (JStr s) (d\<lparr>mobile_searches := ms\<rparr>)) =
           response (track_search f1 t1 (JStr s) d) \<and>
         response (search_result e f1 t1 (JStr s) (d\<lparr>mobile_searches := ms\<rparr>)) =
           response (search_result e f1 t1 (JStr s) d)"
proof -
  have accepted: "\<not> invalid (JStr s)"
    using assms(1) by (rule valid_mobile_accepted)
  then have t: "truthy (JStr s)"
    by (rule accepted_truthy)
  have found: "execute_select_result (lookup_fail f1) (JStr s) d = Inr (r # rest)"
    using assms(2,3) by (simp add: execute_select_result_def)
  have first: "response (track_search f1 t1 (JStr s) d) = \<lparr>status = 200, payload = ResultBody r None\<rparr>"
    by (simp add: track_search_found [OF accepted found])
  have first': "response (search_result e f1 t1 (JStr s) d) =
           \<lparr>status = 200,
            payload = ResultBody r (if result r = Some ''Selected'' then WHATSAPP_LINK e else None)\<rparr>"
    by (simp add: search_result_found [OF accepted found])
  have same: "lookup_fail f2 = lookup_fail f1"
    using assms(3,4) by simp
  have second: "response (track_search f2 t2 (JStr s) (db_after (track_search f1 t1 (JStr s) d))) =
           response (track_search f1 t1 (JStr s) d)"
    by (rule handlers_cong(1) [OF same]) simp
  have second': "response (search_result e f2 t2 (JStr s) (db_after (search_result e f1 t1 (JStr s) d))) =
           response (search_result e f1 t1 (JStr s) d)"
    by (rule handlers_cong(2) [OF same]) simp
  have other: "response (track_search f1 t1 (JStr s) (d\<lparr>mobile_searches := ms\<rparr>)) =
           response (track_search f1 t1 (JStr s) d)"
    by (rule handlers_cong(1)) simp_all
  have other': "response (search_result e f1 t1 (JStr s) (d\<lparr>mobile_searches := ms\<rparr>)) =
           response (search_result e f1 t1 (JStr s) d)"
    by (rule handlers_cong(2)) simp_all
  have counts: "\<not> track_fail f1 \<and> \<not> track_fail f2 \<longrightarrow>
            clicks s (db_after (track_search f1 t1 (JStr s) d)) = clicks s d + 1 \<and>
            clicks s (db_after (track_search f2 t2 (JStr s) (db_after (track_search f1 t1 (JStr s) d)))) =
              clicks s d + 2 \<and>
            clicks s (db_after (search_result e f1 t1 (JStr s) d)) = clicks s d + 1 \<and>
            clicks s (db_after (search_result e f2 t2 (JStr s) (db_after (search_result e f1 t1 (JStr s) d)))) =
              clicks s d + 2"
    using t by (simp add: clicks_track_search clicks_search_result or_empty_truthy [OF t])
  show ?thesis
    using first first' second second' other other' counts
    by simp
qed

theorem C8_same_payload_twice_witness:
  "valid_mobile ''9876543210'' \<and>
   filter (\<lambda>r. phone r = ''9876543210'') (test_results seeded_db) = asha # [] \<and>
   \<not> lookup_fail all_ok \<and> \<not> track_fail all_ok \<and>
   response (track_search all_ok 7 (JStr ''9876543210'') seeded_db) =
     \<lparr>status = 200, payload = ResultBody asha None\<rparr> \<and>
   response (track_search all_ok 8 (JStr ''9876543210'')
               (db_after (track_search all_ok 7 (JStr ''9876543210'') seeded_db))) =
     \<lparr>status = 200, payload = ResultBody asha None\<rparr> \<and>
   clicks ''9876543210'' (db_after (track_search all_ok 7 (JStr ''9876543210'') seeded_db)) = 1 \<and>
   clicks ''9876543210'' (db_after (track_search all_ok 8 (JStr ''9876543210'')
               (db_after (track_search all_ok 7 (JStr ''9876543210'') seeded_db)))) = 2"
proof -
  have v: "valid_mobile ''9876543210''"
    by (simp add: valid_mobile_def is_digit_def)
  have found: "filter (\<lambda>r. phone r = ''9876543210'') (test_results seeded_db) = asha # []"
    by (simp add: seeded_db_def asha_def)
  have ok: "\<not> lookup_fail all_ok" "\<not> track_fail all_ok"
    by (simp_all add: all_ok_def)
  have fresh: "clicks ''9876543210'' seeded_db = 0"
    by (simp add: clicks_def search_row_def seeded_db_def)
  show ?thesis
    using v found ok
          C8_same_payload_twice [OF v found ok(1) ok(1), of 7 8 sample_env "[]"]
    by (simp add: fresh)
qed

text \<open>
  C10. In \<^verbatim>\<open>/api/track-search\<close> of \<^verbatim>\<open>server.js\<close> a request whose
  \<^verbatim>\<open>mobileNumber\<close> is falsy (absent, null, false, 0 or the empty string) issues the
  tracking upsert with the empty string as key, and nothing else, and is answered 400; the
  count of the empty key grows by one when the write succeeds. A sequence of such requests
  whose writes succeed adds its length to that count, on one row (given the key is unique in
  the table before); the empty string is not a string of ten digits.
\<close>

theorem C10_missing_number_tracked_under_empty_key:
  assumes "\<not> truthy v"
      and "list_all (\<lambda>(f, now, w). \<not> truthy w \<and> \<not> track_fail f) reqs"
  shows "ops (track_search f now v d) = [OpUpsert (JStr [])] \<and>
         response (track_search f now v d) =
           \<lparr>status = 400, payload = ErrorBody ''Invalid mobile number''\<rparr> \<and>
         clicks [] (db_after (track_search f now v d)) = clicks [] d + (if track_fail f then 0 else 1) \<and>
         clicks [] (run_track_search reqs d) = clicks [] d + int (length reqs) \<and>
         (reqs \<noteq> [] \<and> length (filter (\<lambda>r. mobile_number r = []) (mobile_searches d)) \<le> 1 \<longrightarrow>
            length (filter (\<lambda>r. mobile_number r = []) (mobile_searches (run_track_search reqs d))) = 1) \<and>
         \<not> valid_mobile []"
proof (intro conjI impI)
  have inv: "invalid v"
    using assms(1) by (rule falsy_invalid)
  show "ops (track_search f now v d) = [OpUpsert (JStr [])]"
    by (simp add: track_search_invalid [OF inv] or_empty_falsy [OF assms(1)])
  show "response (track_search f now v d) =
           \<lparr>status = 400, payload = ErrorBody ''Invalid mobile number''\<rparr>"
    by (simp add: track_search_invalid [OF inv])
  show "clicks [] (db_after (track_search f now v d)) = clicks [] d + (if track_fail f then 0 else 1)"
    by (simp add: clicks_track_search or_empty_falsy [OF assms(1)])
  show "clicks [] (run_track_search reqs d) = clicks [] d + int (length reqs)"
    using assms(2) by (rule clicks_run_falsy)
  show "\<not> valid_mobile []"
    by (simp add: valid_mobile_def)
next
  assume "reqs \<noteq> [] \<and> length (filter (\<lambda>r. mobile_number r = []) (mobile_searches d)) \<le> 1"
  then show "length (filter (\<lambda>r. mobile_number r = []) (mobile_searches (run_track_search reqs d))) = 1"
    using key_rows_run_falsy [OF assms(2), of d] by simp
qed

theorem C10_missing_number_tracked_under_empty_key_witness:
  "\<not> truthy JNull \<and>
   list_all (\<lambda>(f, now, w). \<not> truthy w \<and> \<not> track_fail f)
     [(all_ok, 1, JUndefined), (all_ok, 2, JNull), (all_ok, 3, JStr [])] \<and>
   ops (track_search all_ok 7 JNull empty_db) = [OpUpsert (JStr [])] \<and>
   clicks [] (run_track_search [(all_ok, 1, JUndefined), (all_ok, 2, JNull), (all_ok, 3, JStr [])] empty_db) = 3 \<and>
   length (filter (\<lambda>r. mobile_number r = [])
     (mobile_searches
        (run_track_search [(all_ok, 1, JUndefined), (all_ok, 2, JNull), (all_ok, 3, JStr [])] empty_db))) = 1"
proof -
  have falsy: "\<not> truthy JNull"
    by simp
  have all: "list_all (\<lambda>(f, now, w). \<not> truthy w \<and> \<not> track_fail f)
     [(all_ok, 1, JUndefined), (all_ok, 2, JNull), (all_ok, 3, JStr [])]"
    by (simp add: all_ok_def)
  have fresh: "clicks [] empty_db = 0" "mobile_searches empty_db = []"
    by (simp_all add: clicks_def search_row_def empty_db_def)
  show ?thesis
    using falsy all
          C10_missing_number_tracked_under_empty_key [OF falsy all, of all_ok 7 empty_db]
    by (simp add: fresh)
qed

section \<open>The admin list\<close>

text \<open>
  C7. Whenever the secret supplied differs from the value of \<^verbatim>\<open>ADMIN_SECRET\<close> (an
  absent secret is \<^verbatim>\<open>undefined\<close>), the response is 401 with \<^verbatim>\<open>Unauthorized\<close> and
  no query is issued. With the secret equal to it and the query answering, the response is
  200 with every row of \<^verbatim>\<open>mobile_searches\<close>, in descending order of
  \<^verbatim>\<open>last_updated\<close>, and \<^verbatim>\<open>total\<close> the number of rows returned. Both files'
  handlers are \<open>admin_searches\<close> at their message.
\<close>

theorem C7_admin_list:
  "(secret \<noteq> env_value (ADMIN_SECRET e) \<longrightarrow>
      response (admin_searches msg e fails secret d) =
        \<lparr>status = 401, payload = ErrorBody ''Unauthorized''\<rparr> \<and>
      ops (admin_searches msg e fails secret d) = []) \<and>
   (secret = env_value (ADMIN_SECRET e) \<and> \<not> fails \<longrightarrow>
      (\<exists>rows. response (admin_searches msg e fails secret d) =
                 \<lparr>status = 200, payload = ListBody rows (length rows)\<rparr> \<and>
              mset rows = mset (mobile_searches d) \<and>
              sorted_wrt (\<lambda>a b. last_updated b \<le> last_updated a) rows))"
proof (intro conjI impI)
  assume "secret \<noteq> env_value (ADMIN_SECRET e)"
  then show "response (admin_searches msg e fails secret d) =
        \<lparr>status = 401, payload = ErrorBody ''Unauthorized''\<rparr>"
    and "ops (admin_searches msg e fails secret d) = []"
    by (simp_all add: admin_searches_denied)
next
  assume "secret = env_value (ADMIN_SECRET e) \<and> \<not> fails"
  then have "response (admin_searches msg e fails secret d) =
      \<lparr>status = 200, payload = ListBody (rev (sort_key last_updated (mobile_searches d)))
                                         (length (rev (sort_key last_updated (mobile_searches d))))\<rparr>"
    by (simp add: admin_searches_granted)
  then show "\<exists>rows. response (admin_searches msg e fails secret d) =
                 \<lparr>status = 200, payload = ListBody rows (length rows)\<rparr> \<and>
              mset rows = mset (mobile_searches d) \<and>
              sorted_wrt (\<lambda>a b. last_updated b \<le> last_updated a) rows"
    using select_searches_sorted [of "mobile_searches d"] select_searches_all [of "mobile_searches d"]
    by blast
qed

theorem C7_admin_list_witness:
  "JStr ''wrong'' \<noteq> env_value (ADMIN_SECRET sample_env) \<and>
   response (admin_searches_server sample_env False (JStr ''wrong'') visited_db) =
     \<lparr>status = 401, payload = ErrorBody ''Unauthorized''\<rparr> \<and>
   JUndefined \<noteq> env_value (ADMIN_SECRET sample_env) \<and>
   response (admin_searches_part2 sample_env False JUndefined visited_db) =
     \<lparr>status = 401, payload = ErrorBody ''Unauthorized''\<rparr> \<and>
   JStr ''s3cret'' = env_value (ADMIN_SECRET sample_env) \<and>
   (\<exists>rows. response (admin_searches_server sample_env False (JStr ''s3cret'') visited_db) =
              \<lparr>status = 200, payload = ListBody rows (length rows)\<rparr> \<and>
           mset rows = mset (mobile_searches visited_db) \<and>
           sorted_wrt (\<lambda>a b. last_updated b \<le> last_updated a) rows)"
  using C7_admin_list [of "JStr ''wrong''" sample_env "''Internal server error''" False visited_db]
        C7_admin_list [of JUndefined sample_env "''Database temporarily unavailable''" False visited_db]
        C7_admin_list [of "JStr ''s3cret''" sample_env "''Internal server error''" False visited_db]
  by (simp add: admin_searches_server_def admin_searches_part2_def sample_env_def env_value_def)

text \<open>
  C9. The response is 401 exactly when the secret supplied is not equal to the value of
  \<^verbatim>\<open>ADMIN_SECRET\<close>. With the variable unset its value is \<^verbatim>\<open>undefined\<close>, so a
  request without a secret passes the check and, the query answering, receives every row.
\<close>

theorem C9_admin_secret_strict_equality:
  "(status (response (admin_searches msg e fails secret d)) = 401) =
     (secret \<noteq> env_value (ADMIN_SECRET e)) \<and>
   (ADMIN_SECRET e = None \<and> \<not> fails \<longrightarrow>
      response (admin_searches msg e fails JUndefined d) =
        \<lparr>status = 200,
         payload = ListBody (rev (sort_key last_updated (mobile_searches d)))
                            (length (mobile_searches d))\<rparr>)"
proof (intro conjI impI)
  show "(status (response (admin_searches msg e fails secret d)) = 401) =
     (secret \<noteq> env_value (ADMIN_SECRET e))"
  proof (cases "secret = env_value (ADMIN_SECRET e)")
    case True
    then show ?thesis
      by (cases fails) (simp_all add: admin_searches_granted admin_searches_failed)
  next
    case False
    then show ?thesis by (simp add: admin_searches_denied)
  qed
next
  assume "ADMIN_SECRET e = None \<and> \<not> fails"
  then have "JUndefined = env_value (ADMIN_SECRET e)" and "\<not> fails"
    by (simp_all add: env_value_def)
  then show "response (admin_searches msg e fails JUndefined d) =
        \<lparr>status = 200,
         payload = ListBody (rev (sort_key last_updated (mobile_searches d)))
                            (length (mobile_searches d))\<rparr>"
    by (simp add: admin_searches_granted)
qed

theorem C9_admin_secret_strict_equality_witness:
  "ADMIN_SECRET (sample_env\<lparr>ADMIN_SECRET := None\<rparr>) = None \<and>
   response (admin_searches_server (sample_env\<lparr>ADMIN_SECRET := None\<rparr>) False JUndefined visited_db) =
     \<lparr>status = 200,
      payload = ListBody (rev (sort_key last_updated (mobile_searches visited_db)))
                         (length (mobile_searches visited_db))\<rparr> \<and>
   status (response (admin_searches_server (sample_env\<lparr>ADMIN_SECRET := None\<rparr>) False (JStr ''guess'')
                       visited_db)) = 401"
  using C9_admin_secret_strict_equality
          [of "''Internal server error''" "sample_env\<lparr>ADMIN_SECRET := None\<rparr>" False JUndefined visited_db]
        C9_admin_secret_strict_equality
          [of "''Internal server error''" "sample_env\<lparr>ADMIN_SECRET := None\<rparr>" False "JStr ''guess''" visited_db]
  by (simp add: admin_searches_server_def env_value_def)

end
